theory Spec2Isabelle
  imports Complex_Main
begin

section \<open>Data model of driveWithJoystick.py\<close>

text \<open>
  Python numbers that may be floats (axis values, voltages, headings, clock readings) are
  modelled as \<open>real\<close>; the integer speed is an \<open>int\<close>, the cursor into the
  cheat sequence a \<open>nat\<close>. Button identifiers are the integers of the \<open>BUTTONS\<close>
  table.
\<close>

datatype color = Color int int int

text \<open>The calls made on the robot (\<open>self.api\<close> and \<open>Power\<close>).\<close>

datatype api_call =
    SetHeading real
  | SetSpeed int
  | SetFrontLed color
  | SetMatrixCharacter string color
  | GetHeading
  | GetBatteryVoltage

text \<open>An exception that leaves the function that raised it.\<close>

datatype error =
    ActuatorError api_call
  | IndexError

text \<open>The lines the program prints, one constructor per \<open>print\<close> call of the source.\<close>

datatype message =
    SearchingNamed string
  | SearchingNearest
  | ConnectedTo string
  | ErrorDiscovering
  | NoToyToConnect
  | ApiConnected
  | ErrorConnecting
  | Calibrating real
  | CalibrationComplete
  | BatteryReading int real
  | BatteryCheckFailed
  | CheatActivated
  | DisplayFailed
  | NoJoystick
  | Usage
  | ConnectingTo string int int

text \<open>
  The attributes of \<open>SpheroController\<close> that the control loop reads and writes, together
  with the two observable histories of a session: \<open>calls\<close>, the robot calls that went
  through, in order, and \<open>out\<close>, the printed lines, in order.
\<close>

record session =
  color :: color
  player_id :: int
  speed :: int
  base_heading :: real
  is_running :: bool
  calibration_mode :: bool
  game_on :: bool
  last_battery_check :: real
  game_start_time :: real
  konami_index :: nat
  cheat_mode :: bool
  calls :: "api_call list"
  out :: "message list"

text \<open>
  What one iteration of the loop reads from outside: the clock, the two joystick axes, the
  buttons held (\<open>joystick.get_button i\<close> is true iff \<open>i\<close> is in \<open>pressed\<close>), what the
  robot would answer to a heading or a voltage query, and which robot calls fail with an
  exception during this iteration. The joystick is taken to have the two axes and the
  sixteen buttons the table names.
\<close>

record tick_input =
  current_time :: real
  axis0 :: real
  axis1 :: real
  pressed :: "nat list"
  heading_reading :: real
  voltage_reading :: real
  fails :: "api_call \<Rightarrow> bool"

definition get_button :: "tick_input \<Rightarrow> nat \<Rightarrow> bool" where
  "get_button inp btn_id = (btn_id \<in> set (pressed inp))"

section \<open>Constants\<close>

definition BUTTONS :: "(string \<times> nat) list" where
  "BUTTONS =
     [(''1'', 0), (''2'', 1), (''3'', 2), (''4'', 3),
      (''L1'', 4), (''R1'', 5), (''L2'', 6), (''R2'', 7),
      (''SELECT'', 8), (''START'', 9),
      (''UP'', 10), (''DOWN'', 11), (''LEFT'', 12), (''RIGHT'', 13),
      (''B'', 14), (''A'', 15)]"

text \<open>\<open>BUTTONS[name]\<close> for a key of the table.\<close>

definition button :: "string \<Rightarrow> nat" where
  "button name = the (map_of BUTTONS name)"

definition LED_PATTERNS :: "int \<Rightarrow> string option" where
  "LED_PATTERNS = map_of [(1, ''1''), (2, ''2''), (3, ''3''), (4, ''4''), (5, ''5'')]"

definition BATTERY_CHECK_INTERVAL :: real where
  "BATTERY_CHECK_INTERVAL = 30"

definition HEADING_ADJUSTMENT :: real where
  "HEADING_ADJUSTMENT = 5"

definition KONAMI_CODE :: "nat list" where
  "KONAMI_CODE =
     [button ''UP'', button ''UP'',
      button ''DOWN'', button ''DOWN'',
      button ''LEFT'', button ''RIGHT'',
      button ''LEFT'', button ''RIGHT'',
      button ''B'', button ''A'']"

section \<open>Helpers\<close>

text \<open>Python's \<open>x % m\<close> for a positive modulus: the result has the sign of \<open>m\<close>.\<close>

definition pymod :: "real \<Rightarrow> real \<Rightarrow> real" where
  "pymod x m = x - m * of_int \<lfloor>x / m\<rfloor>"

text \<open>Sequencing of steps that may raise: the first exception ends the sequence.\<close>

definition and_then :: "error + 'a \<Rightarrow> ('a \<Rightarrow> error + 'b) \<Rightarrow> error + 'b" where
  "and_then r f = (case r of Inl e \<Rightarrow> Inl e | Inr v \<Rightarrow> f v)"

text \<open>
  A command sent to the robot: it either raises or goes through and is appended to
  \<open>calls\<close>.
\<close>

definition api :: "tick_input \<Rightarrow> api_call \<Rightarrow> session \<Rightarrow> error + session" where
  "api inp c s =
     (if fails inp c then Inl (ActuatorError c)
      else Inr (s\<lparr>calls := calls s @ [c]\<rparr>))"

definition print :: "message \<Rightarrow> session \<Rightarrow> session" where
  "print m s = s\<lparr>out := out s @ [m]\<rparr>"

section \<open>SpheroController\<close>

text \<open>\<open>__init__\<close>: \<open>now\<close> is the reading of \<open>time.time()\<close>.\<close>

definition init :: "color \<Rightarrow> int \<Rightarrow> real \<Rightarrow> session" where
  "init col pid now =
     \<lparr>color = col, player_id = pid, speed = 50, base_heading = 0, is_running = True,
      calibration_mode = False, game_on = False, last_battery_check = now,
      game_start_time = now, konami_index = 0, cheat_mode = False,
      calls = [], out = []\<rparr>"

subsection \<open>Movement and calibration\<close>

definition move :: "tick_input \<Rightarrow> real \<Rightarrow> int \<Rightarrow> session \<Rightarrow> error + session" where
  "move inp heading spd s =
     and_then (api inp (SetHeading (pymod heading 360)) s)
       (\<lambda>s1. api inp (SetSpeed spd) s1)"

definition enter_calibration :: "tick_input \<Rightarrow> real \<Rightarrow> session \<Rightarrow> error + session" where
  "enter_calibration inp x_axis s =
     (let s1 = s\<lparr>calibration_mode := True\<rparr> in
      and_then (api inp (SetSpeed 0) s1) (\<lambda>s2.
      and_then (api inp (SetFrontLed (Color 255 0 0)) s2) (\<lambda>s3.
        let s4 = (if x_axis < - 0.7
                  then s3\<lparr>base_heading := base_heading s3 - HEADING_ADJUSTMENT\<rparr>
                  else if x_axis > 0.7
                  then s3\<lparr>base_heading := base_heading s3 + HEADING_ADJUSTMENT\<rparr>
                  else s3) in
        and_then (api inp (SetHeading (base_heading s4)) s4) (\<lambda>s5.
          Inr (print (Calibrating (base_heading s5)) s5)))))"

definition exit_calibration :: "tick_input \<Rightarrow> session \<Rightarrow> error + session" where
  "exit_calibration inp s =
     (let s1 = s\<lparr>calibration_mode := False\<rparr> in
      and_then (api inp (SetFrontLed (Color 0 255 0)) s1) (\<lambda>s2.
        let s3 = s2\<lparr>base_heading := pymod (base_heading s2) 360\<rparr>;
            s4 = s3\<lparr>game_on := True\<rparr>;
            s5 = s4\<lparr>game_start_time := current_time inp\<rparr>
        in Inr (print CalibrationComplete s5)))"

definition toggle_calibration :: "tick_input \<Rightarrow> real \<Rightarrow> session \<Rightarrow> error + session" where
  "toggle_calibration inp x_axis s =
     (if \<not> calibration_mode s then enter_calibration inp x_axis s
      else exit_calibration inp s)"

subsection \<open>Battery monitoring\<close>

text \<open>The colour computed inside \<open>check_battery\<close>: three successive overwrites.\<close>

definition battery_color :: "real \<Rightarrow> color" where
  "battery_color voltage =
     (let c0 = Color 0 255 0;
          c1 = (if voltage < 4.1 then Color 255 255 0 else c0);
          c2 = (if voltage < 3.9 then Color 255 100 0 else c1);
          c3 = (if voltage < 3.7 then Color 255 0 0 else c2)
      in c3)"

text \<open>
  The whole body of \<open>check_battery\<close> is inside \<open>try\<close> / \<open>except Exception\<close>, so the
  function never raises: a failure is printed and the session is otherwise as it was when
  the exception arose.
\<close>

definition check_battery :: "tick_input \<Rightarrow> session \<Rightarrow> session" where
  "check_battery inp s =
     (case api inp GetBatteryVoltage s of
        Inl e \<Rightarrow> print BatteryCheckFailed s
      | Inr s1 \<Rightarrow>
          (let voltage = voltage_reading inp;
               s2 = print (BatteryReading (player_id s1) voltage) s1
           in case api inp (SetFrontLed (battery_color voltage)) s2 of
                Inl e \<Rightarrow> print BatteryCheckFailed s2
              | Inr s3 \<Rightarrow> s3))"

subsection \<open>Cheat mode\<close>

definition activate_cheat_mode :: "tick_input \<Rightarrow> session \<Rightarrow> error + session" where
  "activate_cheat_mode inp s =
     (let s1 = s\<lparr>cheat_mode := True\<rparr>;
          s2 = s1\<lparr>speed := 255\<rparr>;
          s3 = print CheatActivated s2
      in api inp (SetFrontLed (Color 255 0 255)) s3)"

text \<open>
  The body of the \<open>for\<close> loop of \<open>check_konami_code\<close> for a button that is held.
  Reading \<open>KONAMI_CODE\<close> past its end raises.
\<close>

definition konami_press :: "tick_input \<Rightarrow> nat \<Rightarrow> session \<Rightarrow> error + session" where
  "konami_press inp btn_id s =
     (if konami_index s < length KONAMI_CODE then
        (let expected_btn = KONAMI_CODE ! konami_index s in
         if btn_id = expected_btn then
           (let s1 = s\<lparr>konami_index := konami_index s + 1\<rparr> in
            if konami_index s1 = length KONAMI_CODE then
              and_then (activate_cheat_mode inp s1)
                (\<lambda>s2. Inr (s2\<lparr>konami_index := 0\<rparr>))
            else Inr s1)
         else Inr (s\<lparr>konami_index := 0\<rparr>))
      else Inl IndexError)"

text \<open>The \<open>for\<close> loop over the entries of a table, in the table's order.\<close>

fun konami_loop :: "tick_input \<Rightarrow> (string \<times> nat) list \<Rightarrow> session \<Rightarrow> error + session" where
  "konami_loop inp [] s = Inr s"
| "konami_loop inp ((btn_name, btn_id) # rest) s =
     (if get_button inp btn_id
      then and_then (konami_press inp btn_id s) (konami_loop inp rest)
      else konami_loop inp rest s)"

definition check_konami_code :: "tick_input \<Rightarrow> session \<Rightarrow> error + session" where
  "check_konami_code inp s = konami_loop inp BUTTONS s"

subsection \<open>Display\<close>

definition display_number :: "tick_input \<Rightarrow> session \<Rightarrow> session" where
  "display_number inp s =
     (let char = (case LED_PATTERNS (player_id s) of Some c \<Rightarrow> c | None \<Rightarrow> ''?'')
      in case api inp (SetMatrixCharacter char (color s)) s of
           Inl e \<Rightarrow> print DisplayFailed s
         | Inr s1 \<Rightarrow> s1)"

subsection \<open>The control loop\<close>

text \<open>The battery check at the head of an iteration.\<close>

definition battery_step :: "tick_input \<Rightarrow> session \<Rightarrow> session" where
  "battery_step inp s =
     (if current_time inp - last_battery_check s \<ge> 30
      then (check_battery inp s)\<lparr>last_battery_check := current_time inp\<rparr>
      else s)"

text \<open>The speed presets, skipped in cheat mode.\<close>

definition speed_presets :: "tick_input \<Rightarrow> session \<Rightarrow> session" where
  "speed_presets inp s =
     (if \<not> cheat_mode s then
        (if get_button inp (button ''1'') then s\<lparr>speed := 50, color := Color 255 200 0\<rparr>
         else if get_button inp (button ''2'') then s\<lparr>speed := 70, color := Color 255 100 0\<rparr>
         else if get_button inp (button ''3'') then s\<lparr>speed := 100, color := Color 255 50 0\<rparr>
         else if get_button inp (button ''4'') then s\<lparr>speed := 200, color := Color 255 0 0\<rparr>
         else s)
      else s)"

text \<open>The movement control: calibration, forward and back, turn in place, stop.\<close>

definition movement_control :: "tick_input \<Rightarrow> session \<Rightarrow> error + session" where
  "movement_control inp s =
     (let x_axis = axis0 inp; y_axis = axis1 inp in
      if calibration_mode s then enter_calibration inp x_axis s
      else if \<bar>y_axis\<bar> > 0.7 then
        (let heading = (if y_axis < 0 then base_heading s else base_heading s + 180)
         in move inp heading (speed s) s)
      else if \<bar>x_axis\<bar> > 0.7 then
        (let heading = base_heading s + (if x_axis > 0 then 22 else - 22)
         in move inp heading 0 s)
      else api inp (SetSpeed 0) s)"

text \<open>The auto-straighten correction of cheat mode.\<close>

definition auto_straighten :: "tick_input \<Rightarrow> session \<Rightarrow> error + session" where
  "auto_straighten inp s =
     (let x_axis = axis0 inp; y_axis = axis1 inp in
      if cheat_mode s \<and> \<bar>y_axis\<bar> > 0.7 \<and> \<bar>x_axis\<bar> < 0.2 then
        and_then (api inp GetHeading s) (\<lambda>s1.
          let current_heading = heading_reading inp;
              delta = current_heading - base_heading s1
          in if \<bar>delta\<bar> > 3 then
               (let correction = - delta * 0.2;
                    s2 = s1\<lparr>base_heading := base_heading s1 + correction\<rparr>
                in api inp (SetHeading (base_heading s2)) s2)
             else Inr s1)
      else Inr s)"

text \<open>One iteration of the \<open>while\<close> loop.\<close>

definition tick :: "tick_input \<Rightarrow> session \<Rightarrow> error + session" where
  "tick inp s =
     (let s1 = battery_step inp s in
      and_then (check_konami_code inp s1) (\<lambda>s2.
        let s3 = speed_presets inp s2 in
        and_then (movement_control inp s3) (\<lambda>s4.
          and_then (auto_straighten inp s4) (\<lambda>s5.
            Inr (display_number inp s5)))))"

text \<open>
  The \<open>while self.is_running\<close> loop on the inputs of its first iterations, one element
  per iteration. An exception ends the loop and leaves it.
\<close>

fun ticks :: "tick_input list \<Rightarrow> session \<Rightarrow> error + session" where
  "ticks [] s = Inr s"
| "ticks (inp # rest) s =
     (if is_running s then and_then (tick inp s) (ticks rest) else Inr s)"

text \<open>
  \<open>control_loop\<close>: the display is refreshed once before the first iteration. Entering
  the \<open>with self.api\<close> block is taken to succeed.
\<close>

definition control_loop :: "tick_input \<Rightarrow> tick_input list \<Rightarrow> session \<Rightarrow> error + session" where
  "control_loop inp0 inps s = ticks inps (display_number inp0 s)"

section \<open>Startup\<close>

text \<open>
  What the program finds when it starts: the number of joysticks, what the scanner answers
  (a toy is identified by its name; \<open>None\<close> stands for an exception of the scanner),
  whether the robot API can be built from the toy, and the clock.
\<close>

record startup =
  joystick_count :: nat
  find_toy :: "string \<Rightarrow> string option"
  find_toys :: "string list option"
  api_connects :: bool
  clock :: real

text \<open>
  How a run ends or stands: \<open>Exit n ms\<close> is a process that ended with status \<open>n\<close>
  without entering the control loop, having printed \<open>ms\<close> and made no call on the robot;
  \<open>InLoop ms r\<close> is a process that entered the loop after printing \<open>ms\<close>, where \<open>r\<close>
  is the session after the iterations supplied, or the exception that left the loop.
\<close>

datatype process =
    Exit nat "message list"
  | InLoop "message list" "error + session"

fun loop_entered :: "process \<Rightarrow> bool" where
  "loop_entered (Exit n ms) = False"
| "loop_entered (InLoop ms r) = True"

text \<open>
  The exit status, once the process has ended: an uncaught exception ends the interpreter
  with status 1; a loop that stopped because \<open>is_running\<close> is false lets \<open>main\<close>
  return; a process still in its loop has none.
\<close>

fun exit_status :: "process \<Rightarrow> nat option" where
  "exit_status (Exit n ms) = Some n"
| "exit_status (InLoop ms (Inl e)) = Some 1"
| "exit_status (InLoop ms (Inr s)) = (if is_running s then None else Some 0)"

fun robot_calls :: "process \<Rightarrow> api_call list" where
  "robot_calls (Exit n ms) = []"
| "robot_calls (InLoop ms (Inl e)) = (case e of ActuatorError c \<Rightarrow> [c] | _ \<Rightarrow> [])"
| "robot_calls (InLoop ms (Inr s)) = calls s"

fun printed :: "process \<Rightarrow> message list" where
  "printed (Exit n ms) = ms"
| "printed (InLoop ms r) = ms"

fun after_printing :: "message list \<Rightarrow> process \<Rightarrow> process" where
  "after_printing ms0 (Exit n ms) = Exit n (ms0 @ ms)"
| "after_printing ms0 (InLoop ms r) = InLoop (ms0 @ ms) r"

text \<open>
  \<open>discover_toy\<close>: the toy found, if any, and the lines printed. Every exception is
  caught and printed.
\<close>

definition discover_toy :: "startup \<Rightarrow> string \<Rightarrow> string option \<times> message list" where
  "discover_toy env toy_name =
     (if toy_name \<noteq> [] then
        (case find_toy env toy_name of
           None \<Rightarrow> (None, [SearchingNamed toy_name, ErrorDiscovering])
         | Some t \<Rightarrow> (Some t, [SearchingNamed toy_name, ConnectedTo t]))
      else
        (case find_toys env of
           None \<Rightarrow> (None, [SearchingNearest, ErrorDiscovering])
         | Some [] \<Rightarrow> (None, [SearchingNearest, ErrorDiscovering])
         | Some (t # ts) \<Rightarrow> (Some t, [SearchingNearest, ConnectedTo t])))"

text \<open>\<open>connect\<close>: whether an API object was returned, and the line printed.\<close>

definition connect :: "startup \<Rightarrow> string option \<Rightarrow> bool \<times> message list" where
  "connect env toy =
     (case toy of
        None \<Rightarrow> (False, [NoToyToConnect])
      | Some t \<Rightarrow>
          (if api_connects env then (True, [ApiConnected])
           else (False, [ErrorConnecting])))"

text \<open>
  \<open>main\<close>. Returning is \<open>Exit 0\<close>: the script has nothing after the call, so the
  interpreter then ends with status 0. Opening a joystick that does not exist raises, and
  nothing catches it.
\<close>

definition main ::
  "startup \<Rightarrow> tick_input \<Rightarrow> tick_input list \<Rightarrow> string \<Rightarrow> int \<Rightarrow> int \<Rightarrow> process" where
  "main env inp0 inps toy_name jid pid =
     (if joystick_count env = 0 then Exit 0 [NoJoystick]
      else if jid < 0 \<or> int (joystick_count env) \<le> jid then Exit 1 []
      else
        (let sphero = init (Color 255 0 0) pid (clock env);
             (toy, ms1) = discover_toy env toy_name;
             (connected, ms2) = connect env toy
         in if connected then InLoop (ms1 @ ms2) (control_loop inp0 inps sphero)
            else Exit 0 (ms1 @ ms2)))"

text \<open>
  The script: \<open>argv\<close> is \<open>sys.argv\<close>, \<open>parse_int\<close> is Python's \<open>int\<close> on a string
  (\<open>None\<close> where it raises \<open>ValueError\<close>).
\<close>

definition script ::
  "startup \<Rightarrow> tick_input \<Rightarrow> tick_input list \<Rightarrow> (string \<Rightarrow> int option) \<Rightarrow> string list
     \<Rightarrow> process" where
  "script env inp0 inps parse_int argv =
     (if length argv < 4 then Exit 1 [Usage]
      else
        (case parse_int (argv ! 2) of
           None \<Rightarrow> Exit 1 []
         | Some jid \<Rightarrow>
             (case parse_int (argv ! 3) of
                None \<Rightarrow> Exit 1 []
              | Some pid \<Rightarrow>
                  after_printing [ConnectingTo (argv ! 1) jid pid]
                    (main env inp0 inps (argv ! 1) jid pid))))"

section \<open>Observations and sample values\<close>

text \<open>
  The number of times the cheat sequence has been completed: \<open>activate_cheat_mode\<close>
  prints its line each time, and nothing else prints that line.
\<close>

definition completions :: "session \<Rightarrow> nat" where
  "completions s = count_list (out s) CheatActivated"

text \<open>
  What an operation of the loop keeps, from the session before to the session after:
  completions are never undone, a session in cheat mode at speed 255 stays so, and a new
  completion leaves the session in cheat mode at speed 255.
\<close>

definition latch_kept :: "session \<Rightarrow> session \<Rightarrow> bool" where
  "latch_kept s s' =
     (completions s \<le> completions s' \<and>
      (cheat_mode s \<and> speed s = 255 \<longrightarrow> cheat_mode s' \<and> speed s' = 255) \<and>
      (completions s < completions s' \<longrightarrow> cheat_mode s' \<and> speed s' = 255))"

text \<open>The colour last sent to the front LED, if any.\<close>

fun front_led :: "api_call list \<Rightarrow> color option" where
  "front_led [] = None"
| "front_led (c # cs) =
     (case front_led cs of
        Some col \<Rightarrow> Some col
      | None \<Rightarrow> (case c of SetFrontLed col \<Rightarrow> Some col | _ \<Rightarrow> None))"

text \<open>
  Sample values for the closed instances below: a new session for player 1 created at
  time 0, an iteration in which nothing is touched and every robot call goes through,
  and the same iteration with one button held.
\<close>

definition fresh :: session where
  "fresh = init (Color 255 0 0) 1 0"

definition quiet :: tick_input where
  "quiet =
     \<lparr>current_time = 1, axis0 = 0, axis1 = 0, pressed = [], heading_reading = 0,
      voltage_reading = 4.2, fails = (\<lambda>c. False)\<rparr>"

definition press :: "nat \<Rightarrow> tick_input" where
  "press b = quiet\<lparr>pressed := [b]\<rparr>"



definition no_joystick :: startup where
  "no_joystick =
     \<lparr>joystick_count = 0, find_toy = (\<lambda>n. Some n), find_toys = Some [''SB-1234''],
      api_connects = True, clock = 0\<rparr>"

definition no_robot :: startup where
  "no_robot =
     \<lparr>joystick_count = 1, find_toy = (\<lambda>n. None), find_toys = Some [],
      api_connects = True, clock = 0\<rparr>"

definition parse_digit :: "string \<Rightarrow> int option" where
  "parse_digit a = (if a = ''0'' then Some 0 else if a = ''1'' then Some 1 else None)"

section \<open>Basic facts\<close>

lemma KONAMI_CODE_ids: "KONAMI_CODE = [10, 10, 11, 11, 12, 13, 12, 13, 14, 15]"
  by (simp add: KONAMI_CODE_def button_def BUTTONS_def)


lemma pymod_id: "0 \<le> x \<Longrightarrow> x < 360 \<Longrightarrow> pymod x 360 = x"
proof -
  assume "0 \<le> x" and "x < 360"
  then have "\<lfloor>x / 360\<rfloor> = 0"
    by (simp add: floor_eq_iff)
  then show ?thesis
    by (simp add: pymod_def)
qed

lemma and_then_Inr: "and_then r f = Inr y \<longleftrightarrow> (\<exists>x. r = Inr x \<and> f x = Inr y)"
  by (cases r) (simp_all add: and_then_def)

lemma KONAMI_CODE_length: "length KONAMI_CODE = 10"
  by (simp add: KONAMI_CODE_ids)

lemma KONAMI_CODE_buttons: "b \<in> set KONAMI_CODE \<Longrightarrow> b < 16"
  by (auto simp: KONAMI_CODE_ids)

text \<open>
  The steps of an iteration that never raise leave the cursor, the completions and
  \<open>is_running\<close> alone.
\<close>

lemma battery_step_detector:
  "konami_index (battery_step inp s) = konami_index s \<and>
   completions (battery_step inp s) = completions s \<and>
   is_running (battery_step inp s) = is_running s"
  by (simp add: battery_step_def check_battery_def api_def print_def completions_def Let_def)

lemma speed_presets_detector:
  "konami_index (speed_presets inp s) = konami_index s \<and>
   completions (speed_presets inp s) = completions s \<and>
   is_running (speed_presets inp s) = is_running s"
  by (simp add: speed_presets_def completions_def)

lemma display_number_detector:
  "konami_index (display_number inp s) = konami_index s \<and>
   completions (display_number inp s) = completions s \<and>
   is_running (display_number inp s) = is_running s"
  by (simp add: display_number_def api_def print_def completions_def Let_def)

lemmas step_defs =
  tick_def battery_step_def check_konami_code_def BUTTONS_def get_button_def konami_press_def
  activate_cheat_mode_def speed_presets_def movement_control_def move_def api_def
  and_then_def auto_straighten_def display_number_def LED_PATTERNS_def print_def button_def
  KONAMI_CODE_ids check_battery_def enter_calibration_def

lemmas sample_defs = quiet_def fresh_def init_def press_def completions_def

lemma exit_status_after_printing: "exit_status (after_printing ms p) = exit_status p"
proof (cases p)
  case (Exit n ms')
  then show ?thesis by simp
next
  case (InLoop ms' r)
  then show ?thesis by (cases r) simp_all
qed

lemma loop_entered_after_printing: "loop_entered (after_printing ms p) = loop_entered p"
  by (cases p) simp_all

lemma robot_calls_after_printing: "robot_calls (after_printing ms p) = robot_calls p"
proof (cases p)
  case (Exit n ms')
  then show ?thesis by simp
next
  case (InLoop ms' r)
  then show ?thesis by (cases r) simp_all
qed


section \<open>Battery colour bands\<close>

text \<open>
  Claim C2. For every voltage reading, the colour sent to the front LED by the battery
  check is green exactly from 4.1 up, yellow exactly on [3.9, 4.1), orange exactly on
  [3.7, 3.9) and red exactly below 3.7; a battery check whose two robot calls go through
  appends the voltage query and the LED command with that colour.
\<close>

theorem battery_color_bands:
  "(battery_color v = Color 0 255 0 \<longleftrightarrow> v \<ge> 4.1) \<and>
   (battery_color v = Color 255 255 0 \<longleftrightarrow> 3.9 \<le> v \<and> v < 4.1) \<and>
   (battery_color v = Color 255 100 0 \<longleftrightarrow> 3.7 \<le> v \<and> v < 3.9) \<and>
   (battery_color v = Color 255 0 0 \<longleftrightarrow> v < 3.7) \<and>
   calls (check_battery (inp\<lparr>voltage_reading := v, fails := \<lambda>c. False\<rparr>) s) =
     calls s @ [GetBatteryVoltage, SetFrontLed (battery_color v)]"
  by (auto simp: battery_color_def check_battery_def api_def print_def Let_def)

section \<open>Battery timestamp on a failed read\<close>

text \<open>
  Claim C10. On an iteration at which 30 seconds or more have passed since the last
  battery check, the timestamp of the last check becomes the time of this iteration,
  also when the voltage read fails. On such a failure the session is otherwise unchanged
  apart from the printed line: no robot call is recorded, so the front LED keeps its
  colour, and an iteration less than 30 seconds later does not try again.
\<close>

theorem battery_read_failure_defers:
  assumes "current_time inp - last_battery_check s \<ge> 30"
  shows "last_battery_check (battery_step inp s) = current_time inp \<and>
         (fails inp GetBatteryVoltage \<longrightarrow>
            battery_step inp s =
              s\<lparr>out := out s @ [BatteryCheckFailed], last_battery_check := current_time inp\<rparr> \<and>
            front_led (calls (battery_step inp s)) = front_led (calls s) \<and>
            (\<forall>inp'. current_time inp' - current_time inp < 30 \<longrightarrow>
               battery_step inp' (battery_step inp s) = battery_step inp s))"
  using assms
  by (simp add: battery_step_def check_battery_def api_def print_def)

theorem battery_read_failure_defers_witness:
  "battery_step (quiet\<lparr>current_time := 31, fails := (\<lambda>c. c = GetBatteryVoltage)\<rparr>) fresh =
     fresh\<lparr>out := [BatteryCheckFailed], last_battery_check := 31\<rparr> \<and>
   battery_step (quiet\<lparr>current_time := 60\<rparr>)
     (battery_step (quiet\<lparr>current_time := 31, fails := (\<lambda>c. c = GetBatteryVoltage)\<rparr>) fresh) =
     fresh\<lparr>out := [BatteryCheckFailed], last_battery_check := 31\<rparr>"
  using battery_read_failure_defers
    [where s = fresh and inp = "quiet\<lparr>current_time := 31, fails := (\<lambda>c. c = GetBatteryVoltage)\<rparr>"]
  by (simp add: quiet_def fresh_def init_def battery_step_def check_battery_def api_def print_def)

section \<open>Motion mapping\<close>

text \<open>From a session out of calibration the loop never enters it.\<close>

lemma konami_loop_calibration:
  "konami_loop inp tbl s = Inr s' \<Longrightarrow> calibration_mode s' = calibration_mode s"
proof (induction tbl arbitrary: s)
  case Nil
  then show ?case by simp
next
  case (Cons e tbl)
  obtain n b where e: "e = (n, b)" by (cases e)
  show ?case
  proof (cases "get_button inp b")
    case True
    with Cons.prems e obtain s1 where
      s1: "konami_press inp b s = Inr s1" and r: "konami_loop inp tbl s1 = Inr s'"
      by (auto simp: and_then_Inr)
    from s1 have "calibration_mode s1 = calibration_mode s"
      by (auto simp: konami_press_def activate_cheat_mode_def api_def and_then_def print_def
          Let_def split: if_splits)
    with Cons.IH [OF r] show ?thesis by simp
  next
    case False
    with Cons.prems e show ?thesis by (simp add: Cons.IH)
  qed
qed

lemma tick_out_of_calibration:
  assumes "tick inp s = Inr s'" and "\<not> calibration_mode s"
  shows "\<not> calibration_mode s'"
proof -
  from assms(1) obtain s2 s4 s5 where
    k: "konami_loop inp BUTTONS (battery_step inp s) = Inr s2" and
    m: "movement_control inp (speed_presets inp s2) = Inr s4" and
    a: "auto_straighten inp s4 = Inr s5" and
    d: "s' = display_number inp s5"
    by (auto simp: tick_def check_konami_code_def and_then_Inr Let_def)
  have "\<not> calibration_mode (battery_step inp s)"
    using assms(2) by (simp add: battery_step_def check_battery_def api_def print_def Let_def)
  with konami_loop_calibration [OF k] have "\<not> calibration_mode (speed_presets inp s2)"
    by (simp add: speed_presets_def)
  with m have "\<not> calibration_mode s4"
    by (auto simp: movement_control_def move_def api_def and_then_def Let_def split: if_splits)
  with a have "\<not> calibration_mode s5"
    by (auto simp: auto_straighten_def api_def and_then_def Let_def split: if_splits)
  with d show ?thesis
    by (simp add: display_number_def api_def print_def Let_def)
qed

lemma ticks_out_of_calibration:
  "ticks inps s = Inr s' \<Longrightarrow> \<not> calibration_mode s \<Longrightarrow> \<not> calibration_mode s'"
proof (induction inps arbitrary: s)
  case Nil
  then show ?case by simp
next
  case (Cons inp inps)
  show ?case
  proof (cases "is_running s")
    case True
    with Cons.prems(1) obtain s1 where "tick inp s = Inr s1" and "ticks inps s1 = Inr s'"
      by (auto simp: and_then_Inr)
    then show ?thesis
      using Cons.IH Cons.prems(2) tick_out_of_calibration by blast
  next
    case False
    with Cons.prems show ?thesis by simp
  qed
qed

lemma control_loop_out_of_calibration:
  "control_loop first_inp inps (init col pid now) = Inr s' \<Longrightarrow> \<not> calibration_mode s'"
proof -
  have "\<not> calibration_mode (display_number first_inp (init col pid now))"
    by (simp add: display_number_def api_def print_def init_def Let_def)
  then show "control_loop first_inp inps (init col pid now) = Inr s' \<Longrightarrow> \<not> calibration_mode s'"
    unfolding control_loop_def by (rule ticks_out_of_calibration [rotated])
qed

text \<open>
  Claim C6. Outside calibration, where the loop always is by the lemmas above, and with
  a robot that accepts its commands, the movement step with base heading 90 and speed
  \<open>speed s\<close> issues: heading 90 and that speed for
  forward axis -1; heading 270 and that speed for forward axis +1; heading 68 and speed 0
  for a pure left turn (x-axis -1, y-axis 0); and, whatever the base heading, speed 0
  alone when both axes are within the 0.7 deadzone.
\<close>

theorem motion_mapping:
  assumes "\<not> calibration_mode s" and "\<forall>c. \<not> fails inp c"
  shows "(base_heading s = 90 \<and> axis1 inp = - 1 \<longrightarrow>
            movement_control inp s =
              Inr (s\<lparr>calls := calls s @ [SetHeading 90, SetSpeed (speed s)]\<rparr>)) \<and>
         (base_heading s = 90 \<and> axis1 inp = 1 \<longrightarrow>
            movement_control inp s =
              Inr (s\<lparr>calls := calls s @ [SetHeading 270, SetSpeed (speed s)]\<rparr>)) \<and>
         (base_heading s = 90 \<and> axis0 inp = - 1 \<and> axis1 inp = 0 \<longrightarrow>
            movement_control inp s =
              Inr (s\<lparr>calls := calls s @ [SetHeading 68, SetSpeed 0]\<rparr>)) \<and>
         (\<bar>axis0 inp\<bar> \<le> 0.7 \<and> \<bar>axis1 inp\<bar> \<le> 0.7 \<longrightarrow>
            movement_control inp s = Inr (s\<lparr>calls := calls s @ [SetSpeed 0]\<rparr>))"
  using assms
  by (simp add: movement_control_def move_def api_def and_then_def pymod_id)

theorem motion_mapping_witness:
  "movement_control (quiet\<lparr>axis1 := - 1\<rparr>) (fresh\<lparr>base_heading := 90\<rparr>) =
     Inr (fresh\<lparr>base_heading := 90, calls := [SetHeading 90, SetSpeed 50]\<rparr>) \<and>
   movement_control (quiet\<lparr>axis1 := 1\<rparr>) (fresh\<lparr>base_heading := 90\<rparr>) =
     Inr (fresh\<lparr>base_heading := 90, calls := [SetHeading 270, SetSpeed 50]\<rparr>) \<and>
   movement_control (quiet\<lparr>axis0 := - 1\<rparr>) (fresh\<lparr>base_heading := 90\<rparr>) =
     Inr (fresh\<lparr>base_heading := 90, calls := [SetHeading 68, SetSpeed 0]\<rparr>) \<and>
   movement_control quiet (fresh\<lparr>base_heading := 90\<rparr>) =
     Inr (fresh\<lparr>base_heading := 90, calls := [SetSpeed 0]\<rparr>)"
  using motion_mapping [where s = "fresh\<lparr>base_heading := 90\<rparr>" and inp = "quiet\<lparr>axis1 := - 1\<rparr>"]
    motion_mapping [where s = "fresh\<lparr>base_heading := 90\<rparr>" and inp = "quiet\<lparr>axis1 := 1\<rparr>"]
    motion_mapping [where s = "fresh\<lparr>base_heading := 90\<rparr>" and inp = "quiet\<lparr>axis0 := - 1\<rparr>"]
    motion_mapping [where s = "fresh\<lparr>base_heading := 90\<rparr>" and inp = quiet]
  by (simp add: quiet_def fresh_def init_def movement_control_def move_def api_def and_then_def
      pymod_id)

section \<open>Auto-straighten\<close>

text \<open>
  Claim C7, as amended. In cheat mode, with the forward axis beyond 0.7 and the lateral
  axis within 0.2, base heading 0 and a reported heading of 10, the correction is -2: the
  base heading becomes -2, as it is, and heading -2 is sent to the robot. In general a
  difference of more than 3 degrees adds minus a fifth of it to the base heading and
  sends the new base heading; a difference of at most 3 degrees changes nothing.
\<close>

theorem auto_straighten_step:
  assumes "cheat_mode s" and "\<bar>axis1 inp\<bar> > 0.7" and "\<bar>axis0 inp\<bar> < 0.2"
    and "\<forall>c. \<not> fails inp c"
  shows "(base_heading s = 0 \<and> heading_reading inp = 10 \<longrightarrow>
            auto_straighten inp s =
              Inr (s\<lparr>base_heading := - 2, calls := calls s @ [GetHeading, SetHeading (- 2)]\<rparr>)) \<and>
         (\<bar>heading_reading inp - base_heading s\<bar> > 3 \<longrightarrow>
            auto_straighten inp s =
              Inr (s\<lparr>base_heading :=
                       base_heading s + - (heading_reading inp - base_heading s) * 0.2,
                     calls := calls s @ [GetHeading,
                       SetHeading
                         (base_heading s + - (heading_reading inp - base_heading s) * 0.2)]\<rparr>)) \<and>
         (\<bar>heading_reading inp - base_heading s\<bar> \<le> 3 \<longrightarrow>
            auto_straighten inp s = Inr (s\<lparr>calls := calls s @ [GetHeading]\<rparr>))"
  using assms
  by (simp add: auto_straighten_def api_def and_then_def Let_def)

theorem auto_straighten_step_witness:
  "auto_straighten (quiet\<lparr>axis1 := - 1, heading_reading := 10\<rparr>) (fresh\<lparr>cheat_mode := True\<rparr>) =
     Inr (fresh\<lparr>cheat_mode := True, base_heading := - 2,
                 calls := [GetHeading, SetHeading (- 2)]\<rparr>) \<and>
   auto_straighten (quiet\<lparr>axis1 := - 1, heading_reading := 3\<rparr>) (fresh\<lparr>cheat_mode := True\<rparr>) =
     Inr (fresh\<lparr>cheat_mode := True, calls := [GetHeading]\<rparr>)"
  using auto_straighten_step [where s = "fresh\<lparr>cheat_mode := True\<rparr>"
      and inp = "quiet\<lparr>axis1 := - 1, heading_reading := 10\<rparr>"]
    auto_straighten_step [where s = "fresh\<lparr>cheat_mode := True\<rparr>"
      and inp = "quiet\<lparr>axis1 := - 1, heading_reading := 3\<rparr>"]
  by (simp add: quiet_def fresh_def init_def auto_straighten_def api_def and_then_def)

text \<open>
  The claim as written has the new base heading normalised to 358. A whole iteration in
  cheat mode with base heading 0 and reported heading 10 leaves -2 in the session and
  sends -2.
\<close>

theorem auto_straighten_not_normalised:
  "tick (quiet\<lparr>axis1 := - 1, heading_reading := 10\<rparr>) (fresh\<lparr>cheat_mode := True, speed := 255\<rparr>) =
     Inr (fresh\<lparr>cheat_mode := True, speed := 255, base_heading := - 2,
                 calls := [SetHeading 0, SetSpeed 255, GetHeading, SetHeading (- 2),
                           SetMatrixCharacter ''1'' (Color 255 0 0)]\<rparr>) \<and>
   base_heading (fresh\<lparr>cheat_mode := True, speed := 255, base_heading := - 2\<rparr>) \<noteq> 358"
  by (simp add: tick_def quiet_def fresh_def init_def battery_step_def check_konami_code_def
      BUTTONS_def get_button_def speed_presets_def movement_control_def move_def api_def
      and_then_def pymod_id auto_straighten_def display_number_def LED_PATTERNS_def)

section \<open>Cheat-mode latch\<close>

lemma latch_kept_refl: "latch_kept s s"
  by (simp add: latch_kept_def)

lemma latch_kept_trans: "latch_kept s s1 \<Longrightarrow> latch_kept s1 s2 \<Longrightarrow> latch_kept s s2"
  unfolding latch_kept_def by (metis le_trans not_le)

lemma battery_step_latch: "latch_kept s (battery_step inp s)"
  by (simp add: latch_kept_def battery_step_def check_battery_def api_def print_def
      completions_def Let_def)

lemma display_number_latch: "latch_kept s (display_number inp s)"
  by (simp add: latch_kept_def display_number_def api_def print_def completions_def Let_def)

lemma speed_presets_latch: "latch_kept s (speed_presets inp s)"
  by (simp add: latch_kept_def speed_presets_def completions_def)

lemma movement_control_latch: "movement_control inp s = Inr s' \<Longrightarrow> latch_kept s s'"
  by (auto simp: latch_kept_def movement_control_def enter_calibration_def move_def api_def
      and_then_def print_def completions_def Let_def split: if_splits)

lemma auto_straighten_latch: "auto_straighten inp s = Inr s' \<Longrightarrow> latch_kept s s'"
  by (auto simp: latch_kept_def auto_straighten_def api_def and_then_def completions_def
      Let_def split: if_splits)

lemma konami_press_latch: "konami_press inp b s = Inr s' \<Longrightarrow> latch_kept s s'"
  by (auto simp: latch_kept_def konami_press_def activate_cheat_mode_def api_def and_then_def
      print_def completions_def Let_def split: if_splits)

lemma konami_loop_latch: "konami_loop inp tbl s = Inr s' \<Longrightarrow> latch_kept s s'"
proof (induction tbl arbitrary: s)
  case Nil
  then show ?case by (simp add: latch_kept_refl)
next
  case (Cons e tbl)
  obtain n b where e: "e = (n, b)" by (cases e)
  show ?case
  proof (cases "get_button inp b")
    case True
    with Cons.prems e obtain s1 where
      "konami_press inp b s = Inr s1" and "konami_loop inp tbl s1 = Inr s'"
      by (auto simp: and_then_Inr)
    then show ?thesis
      using Cons.IH konami_press_latch latch_kept_trans by blast
  next
    case False
    with Cons.prems e show ?thesis by (simp add: Cons.IH)
  qed
qed

lemma tick_latch: "tick inp s = Inr s' \<Longrightarrow> latch_kept s s'"
proof -
  assume "tick inp s = Inr s'"
  then obtain s2 s4 s5 where
    k: "konami_loop inp BUTTONS (battery_step inp s) = Inr s2" and
    m: "movement_control inp (speed_presets inp s2) = Inr s4" and
    a: "auto_straighten inp s4 = Inr s5" and
    d: "s' = display_number inp s5"
    by (auto simp: tick_def check_konami_code_def and_then_Inr Let_def)
  have "latch_kept s s2"
    using battery_step_latch konami_loop_latch [OF k] latch_kept_trans by blast
  moreover have "latch_kept s2 s4"
    using speed_presets_latch movement_control_latch [OF m] latch_kept_trans by blast
  moreover have "latch_kept s4 s'"
    using auto_straighten_latch [OF a] display_number_latch d latch_kept_trans by blast
  ultimately show ?thesis
    using latch_kept_trans by blast
qed

lemma ticks_latch: "ticks inps s = Inr s' \<Longrightarrow> latch_kept s s'"
proof (induction inps arbitrary: s)
  case Nil
  then show ?case by (simp add: latch_kept_refl)
next
  case (Cons inp inps)
  show ?case
  proof (cases "is_running s")
    case True
    with Cons.prems obtain s1 where "tick inp s = Inr s1" and "ticks inps s1 = Inr s'"
      by (auto simp: and_then_Inr)
    then show ?thesis
      using Cons.IH tick_latch latch_kept_trans by blast
  next
    case False
    with Cons.prems show ?thesis by (simp add: latch_kept_refl)
  qed
qed

text \<open>
  Claim C1. Once an iteration has completed the cheat sequence (its activation line has
  been printed), the session is in cheat mode with speed 255 at the end of that iteration
  and at the end of every later iteration, whatever the inputs of those iterations are,
  preset buttons included.
\<close>

theorem cheat_mode_latch:
  assumes "tick inp s = Inr s1" and "completions s < completions s1"
    and "ticks inps s1 = Inr s2"
  shows "cheat_mode s1 \<and> speed s1 = 255 \<and> cheat_mode s2 \<and> speed s2 = 255"
proof -
  have "latch_kept s s1" using assms(1) by (rule tick_latch)
  with assms(2) have 1: "cheat_mode s1 \<and> speed s1 = 255"
    by (simp add: latch_kept_def)
  have "latch_kept s1 s2" using assms(3) by (rule ticks_latch)
  with 1 show ?thesis
    by (simp add: latch_kept_def)
qed

theorem cheat_mode_latch_witness:
  "tick (press 15) (fresh\<lparr>konami_index := 9\<rparr>) =
     Inr (fresh\<lparr>speed := 255, cheat_mode := True,
                 calls := [SetFrontLed (Color 255 0 255), SetSpeed 0,
                           SetMatrixCharacter ''1'' (Color 255 0 0)],
                 out := [CheatActivated]\<rparr>) \<and>
   map_sum id (\<lambda>s. (cheat_mode s, speed s))
     (ticks [press 0, press 1, press 2, press 3]
        (fresh\<lparr>speed := 255, cheat_mode := True,
                calls := [SetFrontLed (Color 255 0 255), SetSpeed 0,
                          SetMatrixCharacter ''1'' (Color 255 0 0)],
                out := [CheatActivated]\<rparr>)) = Inr (True, 255)"
proof -
  let ?s = "fresh\<lparr>konami_index := 9\<rparr>"
  let ?s1 = "fresh\<lparr>speed := 255, cheat_mode := True,
                 calls := [SetFrontLed (Color 255 0 255), SetSpeed 0,
                           SetMatrixCharacter ''1'' (Color 255 0 0)],
                 out := [CheatActivated]\<rparr>"
  have t1: "tick (press 15) ?s = Inr ?s1"
    by (simp add: step_defs sample_defs)
  have c: "completions ?s < completions ?s1"
    by (simp add: sample_defs)
  obtain s2 where t2: "ticks [press 0, press 1, press 2, press 3] ?s1 = Inr s2"
    by (simp add: step_defs sample_defs)
  from cheat_mode_latch [OF t1 c t2] have "cheat_mode s2 \<and> speed s2 = 255"
    by simp
  with t1 t2 show ?thesis by simp
qed

section \<open>Sequence detector\<close>

lemma and_then_return: "and_then r Inr = r"
  by (cases r) (simp_all add: and_then_def)

lemma konami_loop_skip:
  "b \<notin> snd ` set tbl \<Longrightarrow> pressed inp = [b] \<Longrightarrow> konami_loop inp tbl s = Inr s"
  by (induction tbl arbitrary: s) (auto simp: get_button_def)

lemma konami_loop_single:
  assumes "pressed inp = [b]" and "distinct (map snd tbl)" and "b \<in> snd ` set tbl"
  shows "konami_loop inp tbl s = konami_press inp b s"
  using assms(2,3)
proof (induction tbl)
  case Nil
  then show ?case by simp
next
  case (Cons e tbl)
  obtain n c where e: "e = (n, c)" by (cases e)
  show ?case
  proof (cases "c = b")
    case True
    with Cons.prems e have "b \<notin> snd ` set tbl" by auto
    then have "konami_loop inp tbl = Inr"
      using assms(1) by (auto simp: konami_loop_skip)
    with True e assms(1) show ?thesis
      by (simp add: get_button_def and_then_return)
  next
    case False
    with Cons e assms(1) show ?thesis
      by (auto simp: get_button_def)
  qed
qed

lemma check_konami_code_single:
  assumes "pressed inp = [b]" and "b < 16"
  shows "check_konami_code inp s = konami_press inp b s"
proof -
  have d: "distinct (map snd BUTTONS)"
    by (simp add: BUTTONS_def)
  have "snd ` set BUTTONS = {0..<16}"
    by (auto simp: BUTTONS_def) presburger
  with assms(2) have "b \<in> snd ` set BUTTONS" by simp
  with konami_loop_single [OF assms(1) d] show ?thesis
    by (simp add: check_konami_code_def)
qed


text \<open>With a robot that accepts its calls, so do the movement and auto-straighten steps.\<close>

lemma movement_control_detector:
  assumes "\<forall>c. \<not> fails inp c"
  shows "\<exists>s'. movement_control inp s = Inr s' \<and> konami_index s' = konami_index s \<and>
     completions s' = completions s \<and> is_running s' = is_running s"
  using assms
  by (auto simp: movement_control_def enter_calibration_def move_def api_def and_then_def
      print_def completions_def Let_def)

lemma auto_straighten_detector:
  assumes "\<forall>c. \<not> fails inp c"
  shows "\<exists>s'. auto_straighten inp s = Inr s' \<and> konami_index s' = konami_index s \<and>
     completions s' = completions s \<and> is_running s' = is_running s"
  using assms
  by (auto simp: auto_straighten_def api_def and_then_def completions_def Let_def)

lemma after_check_detector:
  assumes "\<forall>c. \<not> fails inp c"
  shows "\<exists>s'. and_then (movement_control inp (speed_presets inp s2))
                 (\<lambda>s4. and_then (auto_straighten inp s4)
                   (\<lambda>s5. Inr (display_number inp s5))) = Inr s' \<and>
              konami_index s' = konami_index s2 \<and> completions s' = completions s2 \<and>
              is_running s' = is_running s2"
proof -
  from movement_control_detector [OF assms, of "speed_presets inp s2"] obtain s4 where
    m: "movement_control inp (speed_presets inp s2) = Inr s4" and
    m2: "konami_index s4 = konami_index s2" "completions s4 = completions s2"
      "is_running s4 = is_running s2"
    by (auto simp: speed_presets_detector)
  from auto_straighten_detector [OF assms, of s4] obtain s5 where
    a: "auto_straighten inp s4 = Inr s5" and
    a2: "konami_index s5 = konami_index s4" "completions s5 = completions s4"
      "is_running s5 = is_running s4"
    by blast
  show ?thesis
    using m m2 a a2 by (simp add: and_then_def display_number_detector)
qed

lemma konami_press_detector:
  assumes "\<forall>c. \<not> fails inp c" and "konami_index s < 10"
  shows "\<exists>s2. konami_press inp b s = Inr s2 \<and> is_running s2 = is_running s \<and>
     konami_index s2 =
       (if b = KONAMI_CODE ! konami_index s
        then (if konami_index s = 9 then 0 else konami_index s + 1) else 0) \<and>
     completions s2 =
       (if b = KONAMI_CODE ! konami_index s \<and> konami_index s = 9
        then completions s + 1 else completions s)"
  using assms
  by (auto simp: konami_press_def KONAMI_CODE_length activate_cheat_mode_def api_def
      and_then_def print_def completions_def Let_def)

lemma tick_single:
  assumes "pressed inp = [b]" and "b < 16" and "\<forall>c. \<not> fails inp c"
    and "konami_index s < 10"
  shows "\<exists>s'. tick inp s = Inr s' \<and> is_running s' = is_running s \<and>
     konami_index s' =
       (if b = KONAMI_CODE ! konami_index s
        then (if konami_index s = 9 then 0 else konami_index s + 1) else 0) \<and>
     completions s' =
       (if b = KONAMI_CODE ! konami_index s \<and> konami_index s = 9
        then completions s + 1 else completions s)"
proof -
  let ?s1 = "battery_step inp s"
  have "konami_index ?s1 < 10"
    using assms(4) by (simp add: battery_step_detector)
  from konami_press_detector [OF assms(3) this, of b] obtain s2 where
    k: "konami_press inp b ?s1 = Inr s2" and
    k2: "is_running s2 = is_running s"
      "konami_index s2 =
         (if b = KONAMI_CODE ! konami_index s
          then (if konami_index s = 9 then 0 else konami_index s + 1) else 0)"
      "completions s2 =
         (if b = KONAMI_CODE ! konami_index s \<and> konami_index s = 9
          then completions s + 1 else completions s)"
    by (auto simp: battery_step_detector)
  from after_check_detector [OF assms(3), of s2] obtain s' where
    r: "and_then (movement_control inp (speed_presets inp s2))
          (\<lambda>s4. and_then (auto_straighten inp s4)
            (\<lambda>s5. Inr (display_number inp s5))) = Inr s'" and
    r2: "konami_index s' = konami_index s2" "completions s' = completions s2"
      "is_running s' = is_running s2"
    by blast
  have "tick inp s = Inr s'"
    using k r by (simp add: tick_def check_konami_code_single [OF assms(1,2)] and_then_def Let_def)
  with k2 r2 show ?thesis by simp
qed


lemma ticks_append:
  "ticks (xs @ ys) s = and_then (ticks xs s) (ticks ys)"
proof (induction xs arbitrary: s)
  case Nil
  then show ?case by (simp add: and_then_def)
next
  case (Cons x xs)
  show ?case
  proof (cases "is_running s")
    case True
    then show ?thesis
      by (cases "tick x s") (simp_all add: and_then_def Cons.IH)
  next
    case False
    then show ?thesis
      by (cases ys) (simp_all add: and_then_def)
  qed
qed

text \<open>A run of single presses that follows the sequence from cursor \<open>k\<close>.\<close>

lemma ticks_matching:
  assumes "map pressed inps = map (\<lambda>b. [b]) (take n (drop k KONAMI_CODE))"
    and "\<forall>inp \<in> set inps. \<forall>c. \<not> fails inp c"
    and "konami_index s = k" and "k + n \<le> 9" and "is_running s"
  shows "\<exists>s'. ticks inps s = Inr s' \<and> konami_index s' = k + n \<and>
     completions s' = completions s \<and> is_running s'"
  using assms
proof (induction n arbitrary: inps k s)
  case 0
  then show ?case by simp
next
  case (Suc n)
  from Suc.prems(4) have k: "k < length KONAMI_CODE"
    by (simp add: KONAMI_CODE_length)
  then have "take (Suc n) (drop k KONAMI_CODE) =
      KONAMI_CODE ! k # take n (drop (Suc k) KONAMI_CODE)"
    by (simp add: Cons_nth_drop_Suc [symmetric])
  with Suc.prems(1) obtain inp rest where
    inps: "inps = inp # rest" and
    p: "pressed inp = [KONAMI_CODE ! k]" and
    r: "map pressed rest = map (\<lambda>b. [b]) (take n (drop (Suc k) KONAMI_CODE))"
    by (cases inps) auto
  have b: "KONAMI_CODE ! k < 16"
    using k by (simp add: KONAMI_CODE_buttons)
  have f: "\<forall>c. \<not> fails inp c" and fr: "\<forall>inp \<in> set rest. \<forall>c. \<not> fails inp c"
    using Suc.prems(2) inps by simp_all
  have "konami_index s < 10"
    using Suc.prems(3,4) by simp
  from tick_single [OF p b f this] Suc.prems(3,4,5) obtain s1 where
    t: "tick inp s = Inr s1" and
    t2: "is_running s1" "konami_index s1 = Suc k" "completions s1 = completions s"
    by auto
  from Suc.IH [OF r fr t2(2) _ t2(1)] Suc.prems(4) obtain s' where
    "ticks rest s1 = Inr s'" "konami_index s' = Suc k + n"
    "completions s' = completions s1" "is_running s'"
    by auto
  with inps t t2 Suc.prems(5) show ?case
    by (simp add: and_then_def)
qed

text \<open>Fewer single presses than the cursor still needs cannot complete the sequence.\<close>

lemma ticks_no_completion:
  assumes "\<forall>inp \<in> set inps. (\<exists>b<16. pressed inp = [b]) \<and> (\<forall>c. \<not> fails inp c)"
    and "konami_index s + length inps < 10" and "is_running s"
  shows "\<exists>s'. ticks inps s = Inr s' \<and> completions s' = completions s \<and>
     konami_index s' \<le> konami_index s + length inps \<and> is_running s'"
  using assms
proof (induction inps arbitrary: s)
  case Nil
  then show ?case by simp
next
  case (Cons inp rest)
  from Cons.prems(1) obtain b where b: "b < 16" "pressed inp = [b]" and
    f: "\<forall>c. \<not> fails inp c"
    by auto
  have lt: "konami_index s < 10" and n9: "konami_index s \<noteq> 9"
    using Cons.prems(2) by simp_all
  from tick_single [OF b(2) b(1) f lt] n9 Cons.prems(3) obtain s1 where
    t: "tick inp s = Inr s1" and
    t2: "is_running s1" "konami_index s1 \<le> konami_index s + 1"
      "completions s1 = completions s"
    by (auto split: if_splits)
  have "\<forall>inp \<in> set rest. (\<exists>b<16. pressed inp = [b]) \<and> (\<forall>c. \<not> fails inp c)"
    using Cons.prems(1) by simp
  moreover have "konami_index s1 + length rest < 10"
    using t2(2) Cons.prems(2) by simp
  ultimately obtain s' where
    "ticks rest s1 = Inr s'" "completions s' = completions s1"
    "konami_index s' \<le> konami_index s1 + length rest" "is_running s'"
    using Cons.IH t2(1) by blast
  with t t2 Cons.prems(3) show ?case
    by (simp add: and_then_def)
qed

lemma map_pressed_split:
  assumes "map pressed inps = xs @ ys"
  obtains a r where "inps = a @ r" and "map pressed a = xs" and "map pressed r = ys"
  using assms unfolding map_eq_append_conv by metis

lemma sequence_completes:
  assumes "map pressed inps = map (\<lambda>b. [b]) KONAMI_CODE"
    and "\<forall>inp \<in> set inps. \<forall>c. \<not> fails inp c"
    and "konami_index s = 0" and "is_running s"
  shows "\<exists>s'. ticks inps s = Inr s' \<and> completions s' = completions s + 1 \<and>
     konami_index s' = 0"
proof -
  have "map (\<lambda>b. [b]) KONAMI_CODE =
      map (\<lambda>b. [b]) (take 9 (drop 0 KONAMI_CODE)) @ [[15]]"
    by (simp add: KONAMI_CODE_ids)
  with assms(1) have "map pressed inps =
      map (\<lambda>b. [b]) (take 9 (drop 0 KONAMI_CODE)) @ [[15]]"
    by (rule trans)
  then obtain a r where ar: "inps = a @ r" and
    a: "map pressed a = map (\<lambda>b. [b]) (take 9 (drop 0 KONAMI_CODE))" and
    r: "map pressed r = [[15]]"
    by (rule map_pressed_split)
  from r obtain m where mr: "r = [m]" and m: "pressed m = [15]"
    by (cases r) auto
  have inps: "inps = a @ [m]"
    using ar mr by simp
  have fa: "\<forall>inp \<in> set a. \<forall>c. \<not> fails inp c" and fm: "\<forall>c. \<not> fails m c"
    using assms(2) inps by simp_all
  have "0 + 9 \<le> (9::nat)" by simp
  from ticks_matching [OF a fa assms(3) this assms(4)] obtain s1 where
    s1: "ticks a s = Inr s1" "konami_index s1 = 9" "completions s1 = completions s"
      "is_running s1"
    by auto
  have b15: "(15::nat) < 16" by simp
  have lt: "konami_index s1 < 10" using s1(2) by simp
  have k9: "KONAMI_CODE ! 9 = 15"
    by (simp add: KONAMI_CODE_ids)
  note ts = tick_single [OF m b15 fm lt]
  then obtain s' where
    "tick m s1 = Inr s'" "konami_index s' = 0" "completions s' = completions s + 1"
    unfolding s1(2,3) k9 by auto
  with inps s1 show ?thesis
    by (simp add: ticks_append and_then_def)
qed


lemma wrong_symbol_inside:
  assumes "map pressed inps =
      map (\<lambda>b. [b]) (take k KONAMI_CODE @ [w] @ drop k KONAMI_CODE)"
    and "\<forall>inp \<in> set inps. \<forall>c. \<not> fails inp c"
    and "konami_index s = 0" and "is_running s"
    and "1 \<le> k" and "k \<le> 9" and "w < 16" and "w \<noteq> KONAMI_CODE ! k"
  shows "\<exists>s1 s'. ticks (take (Suc k) inps) s = Inr s1 \<and> konami_index s1 = 0 \<and>
     completions s1 = completions s \<and>
     ticks inps s = Inr s' \<and> completions s' = completions s"
proof -
  from assms(1) have "map pressed inps =
      map (\<lambda>b. [b]) (take k (drop 0 KONAMI_CODE)) @
        ([w] # map (\<lambda>b. [b]) (drop k KONAMI_CODE))"
    by simp
  then obtain a r where ar: "inps = a @ r" and
    a: "map pressed a = map (\<lambda>b. [b]) (take k (drop 0 KONAMI_CODE))" and
    r: "map pressed r = [w] # map (\<lambda>b. [b]) (drop k KONAMI_CODE)"
    by (rule map_pressed_split)
  from r obtain m c where mc: "r = m # c" and
    m: "pressed m = [w]" and
    c: "map pressed c = map (\<lambda>b. [b]) (drop k KONAMI_CODE)"
    by (cases r) simp_all
  have inps: "inps = a @ [m] @ c"
    using ar mc by simp
  have la: "length a = k"
  proof -
    have "length (map pressed a) = length (map (\<lambda>b. [b]) (take k (drop 0 KONAMI_CODE)))"
      using a by (rule arg_cong)
    then show ?thesis
      using assms(6) by (simp add: KONAMI_CODE_length)
  qed
  have lc: "length c = 10 - k"
  proof -
    have "length (map pressed c) = length (map (\<lambda>b. [b]) (drop k KONAMI_CODE))"
      using c by (rule arg_cong)
    then show ?thesis
      by (simp add: KONAMI_CODE_length)
  qed
  have fa: "\<forall>inp \<in> set a. \<forall>c. \<not> fails inp c" and fm: "\<forall>c. \<not> fails m c"
    and fc: "\<forall>inp \<in> set c. \<forall>c. \<not> fails inp c"
    using assms(2) inps by simp_all
  have "0 + k \<le> 9" using assms(6) by simp
  from ticks_matching [OF a fa assms(3) this assms(4)] obtain s0 where
    s0: "ticks a s = Inr s0" "konami_index s0 = k" "completions s0 = completions s"
      "is_running s0"
    by auto
  have lt: "konami_index s0 < 10" using s0(2) assms(6) by simp
  note ts = tick_single [OF m assms(7) fm lt]
  then obtain s1 where
    s1: "tick m s0 = Inr s1" "konami_index s1 = 0" "completions s1 = completions s"
      "is_running s1"
    unfolding s0(2,3) using assms(6,8) s0(4) by auto
  have "\<forall>inp \<in> set c. (\<exists>b<16. pressed inp = [b]) \<and> (\<forall>c. \<not> fails inp c)"
  proof
    fix inp
    assume i: "inp \<in> set c"
    then have "pressed inp \<in> set (map pressed c)"
      by simp
    then have "pressed inp \<in> set (map (\<lambda>b. [b]) (drop k KONAMI_CODE))"
      using c by simp
    then obtain b where b: "b \<in> set (drop k KONAMI_CODE)" "pressed inp = [b]"
      by auto
    from b(1) have "b \<in> set KONAMI_CODE"
      by (rule in_set_dropD)
    then have "b < 16"
      by (rule KONAMI_CODE_buttons)
    with b(2) fc i show "(\<exists>b<16. pressed inp = [b]) \<and> (\<forall>c. \<not> fails inp c)"
      by auto
  qed
  moreover have "konami_index s1 + length c < 10"
    using s1(2) lc assms(5) by simp
  ultimately have "\<exists>s'. ticks c s1 = Inr s' \<and> completions s' = completions s1 \<and>
     konami_index s' \<le> konami_index s1 + length c \<and> is_running s'"
    using s1(4) by (rule ticks_no_completion)
  then obtain s' where
    s': "ticks c s1 = Inr s'" "completions s' = completions s1"
    by auto
  have "take (Suc k) inps = a @ [m]"
    using inps la by simp
  then have "ticks (take (Suc k) inps) s = Inr s1"
    using s0 s1 by (simp add: ticks_append and_then_def)
  moreover have "ticks inps s = Inr s'"
    using inps s0 s1 s' by (simp add: ticks_append and_then_def)
  ultimately show ?thesis
    using s1 s' by simp
qed

text \<open>
  Claim C3, as amended. With a robot that accepts its calls and the cursor at 0, feeding
  the ten symbols of the sequence, one held button per iteration, completes the sequence
  exactly once and leaves the cursor at 0. Feeding the sequence with one wrong symbol (a
  button of the table other than the one expected there) inserted strictly inside it,
  after the first and before the last symbol, completes nothing, and the cursor is 0 at
  the end of the iteration of the wrong symbol.
\<close>

theorem sequence_detector:
  assumes "\<forall>inp \<in> set inps. \<forall>c. \<not> fails inp c"
    and "konami_index s = 0" and "is_running s"
  shows "(map pressed inps = map (\<lambda>b. [b]) KONAMI_CODE \<longrightarrow>
            (\<exists>s'. ticks inps s = Inr s' \<and> completions s' = completions s + 1 \<and>
                  konami_index s' = 0)) \<and>
         (\<forall>k w. 1 \<le> k \<and> k \<le> 9 \<and> w < 16 \<and> w \<noteq> KONAMI_CODE ! k \<and>
             map pressed inps =
               map (\<lambda>b. [b]) (take k KONAMI_CODE @ [w] @ drop k KONAMI_CODE) \<longrightarrow>
            (\<exists>s1 s'. ticks (take (Suc k) inps) s = Inr s1 \<and> konami_index s1 = 0 \<and>
                     completions s1 = completions s \<and>
                     ticks inps s = Inr s' \<and> completions s' = completions s))"
  using sequence_completes [OF _ assms] wrong_symbol_inside [OF _ assms]
  by blast

theorem sequence_detector_witness:
  "map_sum id (\<lambda>s. (konami_index s, completions s))
     (ticks (map press [10, 10, 11, 11, 12, 13, 12, 13, 14, 15]) fresh) = Inr (0, 1) \<and>
   map_sum id (\<lambda>s. (konami_index s, completions s))
     (ticks (map press [10, 10, 11, 0]) fresh) = Inr (0, 0) \<and>
   map_sum id completions
     (ticks (map press [10, 10, 11, 0, 11, 12, 13, 12, 13, 14, 15]) fresh) = Inr 0"
proof -
  let ?ok = "map press [10, 10, 11, 11, 12, 13, 12, 13, 14, 15]"
  let ?bad = "map press [10, 10, 11, 0, 11, 12, 13, 12, 13, 14, 15]"
  have f: "\<forall>inp \<in> set ?ok. \<forall>c. \<not> fails inp c" "\<forall>inp \<in> set ?bad. \<forall>c. \<not> fails inp c"
    by (simp_all add: press_def quiet_def)
  have i: "konami_index fresh = 0" "is_running fresh" "completions fresh = 0"
    by (simp_all add: fresh_def init_def completions_def)
  have "map pressed ?ok = map (\<lambda>b. [b]) KONAMI_CODE"
    by (simp add: KONAMI_CODE_ids press_def quiet_def)
  with sequence_detector [OF f(1) i(1,2)] obtain s' where
    "ticks ?ok fresh = Inr s'" "completions s' = 1" "konami_index s' = 0"
    using i(3) by auto
  then have 1: "map_sum id (\<lambda>s. (konami_index s, completions s)) (ticks ?ok fresh) = Inr (0, 1)"
    by simp
  have "map pressed ?bad = map (\<lambda>b. [b]) (take 3 KONAMI_CODE @ [0] @ drop 3 KONAMI_CODE)"
    by (simp add: KONAMI_CODE_ids press_def quiet_def)
  moreover have "(0::nat) \<noteq> KONAMI_CODE ! 3"
    by (simp add: KONAMI_CODE_ids)
  ultimately obtain s1 s2 where
    "ticks (take (Suc 3) ?bad) fresh = Inr s1" "konami_index s1 = 0" "completions s1 = 0"
    "ticks ?bad fresh = Inr s2" "completions s2 = 0"
    using sequence_detector [OF f(2) i(1,2)] i(3)
    by (metis (no_types, lifting) Suc_1 Suc_le_mono le0 numeral_3_eq_3 numeral_le_iff
        semiring_norm(68,73) zero_less_numeral one_le_numeral)
  then show ?thesis
    using 1 by simp
qed

text \<open>
  The claim as written lets the wrong symbol stand at any position. Put before the first
  symbol it resets a cursor that is already 0, and the ten symbols after it complete the
  sequence.
\<close>

theorem wrong_symbol_first_completes:
  "(0::nat) \<noteq> KONAMI_CODE ! 0 \<and>
   map_sum id completions (ticks (map press (0 # KONAMI_CODE)) fresh) = Inr 1"
  by (simp add: ticks.simps step_defs sample_defs)

section \<open>Calibration\<close>

text \<open>
  Claim C8, as amended. The movement step delegates to calibration on every iteration on
  which \<open>calibration_mode\<close> is set, and \<open>toggle_calibration\<close> enters calibration when
  it is not set. With a robot that accepts its calls, entering calibration sets the flag,
  sends speed 0, the red front LED and the new base heading, which is the old one moved by
  5 degrees towards the x-axis when its magnitude exceeds 0.7; the flag stays set, so
  the same step runs again on the next iteration.
\<close>

theorem calibration_step:
  assumes "\<forall>c. \<not> fails inp c"
  shows "(calibration_mode s \<longrightarrow> movement_control inp s = enter_calibration inp (axis0 inp) s) \<and>
         (\<not> calibration_mode s \<longrightarrow> toggle_calibration inp x s = enter_calibration inp x s) \<and>
         enter_calibration inp x s =
           Inr (s\<lparr>calibration_mode := True,
                  base_heading :=
                    base_heading s + (if x < - 0.7 then - 5 else if x > 0.7 then 5 else 0),
                  calls := calls s @
                    [SetSpeed 0, SetFrontLed (Color 255 0 0),
                     SetHeading
                       (base_heading s + (if x < - 0.7 then - 5 else if x > 0.7 then 5 else 0))],
                  out := out s @
                    [Calibrating
                       (base_heading s +
                          (if x < - 0.7 then - 5 else if x > 0.7 then 5 else 0))]\<rparr>)"
  using assms
  by (simp add: movement_control_def toggle_calibration_def enter_calibration_def api_def
      and_then_def print_def HEADING_ADJUSTMENT_def Let_def)

theorem calibration_step_witness:
  "movement_control (quiet\<lparr>axis0 := 1\<rparr>) (fresh\<lparr>calibration_mode := True\<rparr>) =
     Inr (fresh\<lparr>calibration_mode := True, base_heading := 5,
                 calls := [SetSpeed 0, SetFrontLed (Color 255 0 0), SetHeading 5],
                 out := [Calibrating 5]\<rparr>) \<and>
   toggle_calibration (quiet\<lparr>axis0 := - 1\<rparr>) (- 1) fresh =
     Inr (fresh\<lparr>calibration_mode := True, base_heading := - 5,
                 calls := [SetSpeed 0, SetFrontLed (Color 255 0 0), SetHeading (- 5)],
                 out := [Calibrating (- 5)]\<rparr>)"
  using calibration_step [where inp = "quiet\<lparr>axis0 := 1\<rparr>" and x = 1
      and s = "fresh\<lparr>calibration_mode := True\<rparr>"]
    calibration_step [where inp = "quiet\<lparr>axis0 := - 1\<rparr>" and x = "- 1" and s = fresh]
  by (simp add: quiet_def fresh_def init_def)

text \<open>
  The claim as written has a button that switches calibration on while it is held. The
  loop reads no button for that: with all sixteen buttons of the table held, a new
  session turns in place and stays out of calibration.
\<close>

theorem no_calibration_button:
  "set (map snd BUTTONS) \<subseteq> set (pressed (quiet\<lparr>pressed := map snd BUTTONS, axis0 := - 1\<rparr>)) \<and>
   tick (quiet\<lparr>pressed := map snd BUTTONS, axis0 := - 1\<rparr>) fresh =
     Inr (fresh\<lparr>color := Color 255 200 0,
                 calls := [SetHeading 338, SetSpeed 0,
                           SetMatrixCharacter ''1'' (Color 255 200 0)]\<rparr>) \<and>
   movement_control (quiet\<lparr>pressed := map snd BUTTONS, axis0 := - 1\<rparr>) fresh \<noteq>
     enter_calibration (quiet\<lparr>pressed := map snd BUTTONS, axis0 := - 1\<rparr>) (- 1) fresh"
  by (simp add: step_defs sample_defs pymod_def)

section \<open>Range of the base heading\<close>








section \<open>Startup failures\<close>

text \<open>
  Claim C9, as amended. When no joystick is detected, or the joystick opens and then
  discovery finds no robot or the API cannot be built, \<open>main\<close> prints a line that says
  so and returns: the process ends with status 0, the control loop is not entered and no
  call is made on the robot.
\<close>

theorem startup_failure_exits_zero:
  assumes "joystick_count env = 0 \<or>
           (0 \<le> jid \<and> jid < int (joystick_count env) \<and>
              (fst (discover_toy env toy_name) = None \<or> \<not> api_connects env))"
    and "4 \<le> length argv" and "argv ! 1 = toy_name"
    and "parse_int (argv ! 2) = Some jid" and "parse_int (argv ! 3) = Some pid"
  shows "(\<exists>ms. main env inp_first inps toy_name jid pid = Exit 0 ms \<and> ms \<noteq> [] \<and>
            set ms \<inter> {NoJoystick, ErrorDiscovering, NoToyToConnect, ErrorConnecting} \<noteq> {}) \<and>
         exit_status (script env inp_first inps parse_int argv) = Some 0 \<and>
         \<not> loop_entered (script env inp_first inps parse_int argv) \<and>
         robot_calls (script env inp_first inps parse_int argv) = []"
proof -
  have m: "\<exists>ms. main env inp_first inps toy_name jid pid = Exit 0 ms \<and> ms \<noteq> [] \<and>
      set ms \<inter> {NoJoystick, ErrorDiscovering, NoToyToConnect, ErrorConnecting} \<noteq> {}"
    using assms(1)
    by (auto simp: main_def discover_toy_def connect_def Let_def
        split: option.splits list.splits if_splits prod.splits)
  have "script env inp_first inps parse_int argv =
      after_printing [ConnectingTo toy_name jid pid] (main env inp_first inps toy_name jid pid)"
    using assms(2-5) by (simp add: script_def)
  with m show ?thesis
    by (auto simp: exit_status_after_printing loop_entered_after_printing
        robot_calls_after_printing)
qed

theorem startup_failure_exits_zero_witness:
  "script no_robot quiet [] parse_digit [''driveWithJoystick.py'', ''SB-1234'', ''0'', ''1''] =
     Exit 0 [ConnectingTo ''SB-1234'' 0 1, SearchingNamed ''SB-1234'', ErrorDiscovering,
             NoToyToConnect]"
  using startup_failure_exits_zero [where env = no_robot and jid = 0 and pid = 1
      and toy_name = "''SB-1234''" and parse_int = parse_digit and inp_first = quiet and inps = "[]"
      and argv = "[''driveWithJoystick.py'', ''SB-1234'', ''0'', ''1'']"]
  by (simp add: script_def main_def discover_toy_def connect_def no_robot_def parse_digit_def)

text \<open>
  The claim as written has a non-zero exit status. With no joystick the script prints its
  two lines and ends with status 0.
\<close>

theorem no_joystick_exit_status:
  "script no_joystick quiet [] parse_digit [''driveWithJoystick.py'', ''SB-1234'', ''0'', ''1''] =
     Exit 0 [ConnectingTo ''SB-1234'' 0 1, NoJoystick] \<and>
   exit_status
     (script no_joystick quiet [] parse_digit [''driveWithJoystick.py'', ''SB-1234'', ''0'', ''1''])
     = Some 0"
  by (simp add: script_def main_def no_joystick_def parse_digit_def)

section \<open>Failing robot calls in the loop\<close>










end
